theory Spec2Isabelle
  imports Main
begin

section \<open>Constants (step.go, lines 21-28)\<close>

definition hockeyAppDeployStatusKey :: string where
  "hockeyAppDeployStatusKey = ''HOCKEYAPP_DEPLOY_STATUS''"

definition hockeyAppDeployStatusSuccess :: string where
  "hockeyAppDeployStatusSuccess = ''success''"

definition hockeyAppDeployStatusFailed :: string where
  "hockeyAppDeployStatusFailed = ''failed''"

definition hockeyAppDeployPublicURLKey :: string where
  "hockeyAppDeployPublicURLKey = ''HOCKEYAPP_DEPLOY_PUBLIC_URL''"

definition hockeyAppDeployBuildURLKey :: string where
  "hockeyAppDeployBuildURLKey = ''HOCKEYAPP_DEPLOY_BUILD_URL''"

definition hockeyAppDeployConfigURLKey :: string where
  "hockeyAppDeployConfigURLKey = ''HOCKEYAPP_DEPLOY_CONFIG_URL''"

section \<open>Models\<close>

text \<open>The struct \<open>ResponseModel\<close> (lines 35-39); a Go string field starts as the empty
  string.\<close>

record ResponseModel =
  ConfigURL :: string
  PublicURL :: string
  BuildURL :: string

definition zeroResponseModel :: ResponseModel where
  "zeroResponseModel = \<lparr>ConfigURL = [], PublicURL = [], BuildURL = []\<rparr>"

text \<open>A Go \<open>error\<close> value is used by the step in two ways only: formatted with \<open>%s\<close>
  (the text of \<open>Error()\<close>) and with \<open>%#v\<close> (its Go-syntax rendering).\<close>

datatype error = GoError (errorText: string) (errorGoSyntax: string)

text \<open>The three outcomes of \<open>os.Stat\<close> that \<open>genericIsPathExists\<close> tells apart.\<close>

datatype stat_result = StatOk | StatNotExist | StatFailed error

text \<open>A JSON document after lexing, as \<open>encoding/json\<close> sees it: object members keep
  their order and may repeat a key.\<close>

datatype json =
    JNull
  | JBool bool
  | JNumber string
  | JString string
  | JArray "json list"
  | JObject "(string \<times> json) list"

text \<open>One part of the multipart body: a scalar field (name, value) or a file
  (field name, file name, content).\<close>

datatype part = FieldPart string string | FilePart string string string

record request =
  reqMethod :: string
  reqURL :: string
  reqHeader :: "(string \<times> string) list"
  reqBody :: "part list"

text \<open>A response as \<open>main\<close> reads it: the status code, and what \<open>ioutil.ReadAll\<close> gives on
  its body (the bytes read so far and the read error, if any).\<close>

record response =
  StatusCode :: int
  bodyContents :: string
  bodyReadErr :: "error option"

text \<open>Everything outside the process that the step consults. \<open>getenv\<close> is \<open>os.Getenv\<close>
  (the empty string for an unset variable); \<open>envman\<close> is the result of running
  \<open>envman add --key k\<close> with the value on standard input; \<open>httpDo\<close> is \<open>client.Do\<close>, which
  gives a response, an error, or both. \<open>writeField\<close>, \<open>createFormFile\<close>, \<open>ioCopy\<close>,
  \<open>newRequest\<close>, \<open>formDataContentType\<close> and \<open>jsonSyntax\<close> stand for the library calls of
  the same names (\<open>jsonSyntax\<close> for the syntax check and lexing inside
  \<open>json.Unmarshal\<close>, \<open>unmarshalTypeError\<close> for the error value it builds for a JSON value of
  the wrong type). \<open>fieldsOrder\<close> and \<open>filesOrder\<close> fix the order in which the two
  \<open>range\<close> loops over maps visit their entries, which Go leaves unspecified.\<close>

record world =
  getenv :: "string \<Rightarrow> string"
  stat :: "string \<Rightarrow> stat_result"
  osOpen :: "string \<Rightarrow> error option"
  ioCopy :: "string \<Rightarrow> error + string"
  writeField :: "string \<Rightarrow> string \<Rightarrow> error option"
  createFormFile :: "string \<Rightarrow> string \<Rightarrow> error option"
  newRequest :: "string \<Rightarrow> string \<Rightarrow> error option"
  formDataContentType :: string
  fieldsOrder :: "nat list"
  filesOrder :: "nat list"
  httpDo :: "request \<Rightarrow> response option \<times> error option"
  jsonSyntax :: "string \<Rightarrow> error + json"
  unmarshalTypeError :: "json \<Rightarrow> error"
  envman :: "string \<Rightarrow> string \<Rightarrow> error option"

text \<open>What the process does that can be seen from outside, in order (a write to standard
  output, a run of \<open>envman\<close> with its result, the HTTP call with its result), plus two
  markers, \<open>CreateRequest\<close> and \<open>JSONUnmarshal\<close>, for the calls of \<open>createRequest\<close> and
  \<open>json.Unmarshal\<close>.\<close>

datatype event =
    Print string
  | EnvmanAdd string string "error option"
  | CreateRequest string "(string \<times> string) list" "(string \<times> string) list"
  | HTTPDo request "response option" "error option"
  | JSONUnmarshal string "error + ResponseModel"

text \<open>The state of the running process: the events so far and the files it holds open.\<close>

record proc =
  events :: "event list"
  openFiles :: "string list"

text \<open>How the process ends: \<open>os.Exit n\<close> (a return from \<open>main\<close> is \<open>Exited 0\<close>) or a Go
  run-time panic, which ends the process with status 2.\<close>

datatype exit = Exited nat | Panicked

fun exitCode :: "exit \<Rightarrow> nat" where
  "exitCode (Exited n) = n"
| "exitCode Panicked = 2"

definition emit :: "proc \<Rightarrow> event list \<Rightarrow> proc" where
  "emit s es = s\<lparr>events := events s @ es\<rparr>"

section \<open>Formatting\<close>

definition esc :: string where
  "esc = [CHR 0x1B]"

definition nl :: string where
  "nl = [CHR 0x0A]"

definition dq :: string where
  "dq = [CHR 0x22]"

definition digit :: "nat \<Rightarrow> char" where
  "digit d = char_of (48 + d)"

fun natDec :: "nat \<Rightarrow> string" where
  "natDec n = (if n < 10 then [digit n] else natDec (n div 10) @ [digit (n mod 10)])"

declare natDec.simps [simp del]

text \<open>The verb \<open>%d\<close> on a Go \<open>int\<close>.\<close>

definition fmtInt :: "int \<Rightarrow> string" where
  "fmtInt i = (if i < 0 then CHR ''-'' # natDec (nat (- i)) else natDec (nat i))"

section \<open>Functions\<close>

text \<open>The four log helpers (lines 55-74) take the already formatted message.\<close>

definition logWarn :: "string \<Rightarrow> event list" where
  "logWarn msg = [Print (esc @ ''[33;1m'' @ msg @ esc @ ''[0m'' @ nl)]"

definition logInfo :: "string \<Rightarrow> event list" where
  "logInfo msg = [Print nl, Print (esc @ ''[34;1m'' @ msg @ esc @ ''[0m'' @ nl)]"

definition logDetails :: "string \<Rightarrow> event list" where
  "logDetails msg = [Print (''  '' @ msg @ nl)]"

definition logDone :: "string \<Rightarrow> event list" where
  "logDone msg = [Print (''  '' @ esc @ ''[32;1m'' @ msg @ esc @ ''[0m'' @ nl)]"

text \<open>\<open>exportEnvironmentWithEnvman\<close> (lines 96-102).\<close>

definition exportEnvironmentWithEnvman ::
  "world \<Rightarrow> proc \<Rightarrow> string \<Rightarrow> string \<Rightarrow> error option \<times> proc" where
  "exportEnvironmentWithEnvman w s keyStr valueStr =
     (envman w keyStr valueStr, emit s [EnvmanAdd keyStr valueStr (envman w keyStr valueStr)])"

text \<open>\<open>logFail\<close> (lines 45-53): export the failed status (a failure of the export is
  only warned about), print the message in red, \<open>os.Exit(1)\<close>.\<close>

definition logFail :: "world \<Rightarrow> proc \<Rightarrow> string \<Rightarrow> proc \<times> exit" where
  "logFail w s msg =
     (case exportEnvironmentWithEnvman w s hockeyAppDeployStatusKey hockeyAppDeployStatusFailed of
        (Some err, s1) \<Rightarrow>
          (emit s1 (logWarn (''Failed to export '' @ hockeyAppDeployStatusKey @ '', error: ''
                              @ errorText err)
                    @ [Print (esc @ ''[31;1m'' @ msg @ esc @ ''[0m'' @ nl)]),
           Exited 1)
      | (None, s1) \<Rightarrow>
          (emit s1 [Print (esc @ ''[31;1m'' @ msg @ esc @ ''[0m'' @ nl)], Exited 1))"

text \<open>\<open>genericIsPathExists\<close> and \<open>IsPathExists\<close> (lines 76-94). The \<open>os.FileInfo\<close> is
  dropped by \<open>IsPathExists\<close> and is left out.\<close>

definition genericIsPathExists :: "world \<Rightarrow> string \<Rightarrow> bool \<times> error option" where
  "genericIsPathExists w pth =
     (if pth = [] then
        (False, Some (GoError ''No path provided''
                        (''&errors.errorString{s:'' @ dq @ ''No path provided'' @ dq @ ''}'')))
      else case stat w pth of
             StatOk \<Rightarrow> (True, None)
           | StatNotExist \<Rightarrow> (False, None)
           | StatFailed err \<Rightarrow> (False, Some err))"

definition IsPathExists :: "world \<Rightarrow> string \<Rightarrow> bool \<times> error option" where
  "IsPathExists w pth = genericIsPathExists w pth"

text \<open>The order of a \<open>range\<close> over a map: each number of the seed picks the next entry
  among those not yet visited; a seed that runs out leaves the rest in place.\<close>

fun mapRange :: "nat list \<Rightarrow> 'a list \<Rightarrow> 'a list" where
  "mapRange [] xs = xs"
| "mapRange (n # ns) xs =
     (if xs = [] then []
      else xs ! (n mod length xs)
             # mapRange ns (take (n mod length xs) xs @ drop (Suc (n mod length xs)) xs))"

text \<open>\<open>createRequest\<close> (lines 104-140). The first loop writes the scalar fields.\<close>

fun addFields :: "world \<Rightarrow> (string \<times> string) list \<Rightarrow> part list \<Rightarrow> error + part list" where
  "addFields w [] ps = Inr ps"
| "addFields w ((key, val) # rest) ps =
     (case writeField w key val of
        Some err \<Rightarrow> Inl err
      | None \<Rightarrow> addFields w rest (ps @ [FieldPart key val]))"

text \<open>The second loop opens each file and copies it into the body. The source has no
  \<open>Close\<close> on the opened file, on any path, so the model has none either.\<close>

fun addFiles ::
  "world \<Rightarrow> proc \<Rightarrow> (string \<times> string) list \<Rightarrow> part list \<Rightarrow> (error + part list) \<times> proc" where
  "addFiles w s [] ps = (Inr ps, s)"
| "addFiles w s ((key, file) # rest) ps =
     (case osOpen w file of
        Some err \<Rightarrow> (Inl err, s)
      | None \<Rightarrow>
          (case createFormFile w key file of
             Some err \<Rightarrow> (Inl err, s\<lparr>openFiles := openFiles s @ [file]\<rparr>)
           | None \<Rightarrow>
               (case ioCopy w file of
                  Inl err \<Rightarrow> (Inl err, s\<lparr>openFiles := openFiles s @ [file]\<rparr>)
                | Inr content \<Rightarrow>
                    addFiles w (s\<lparr>openFiles := openFiles s @ [file]\<rparr>) rest
                      (ps @ [FilePart key file content]))))"

definition createRequest ::
  "world \<Rightarrow> proc \<Rightarrow> string \<Rightarrow> (string \<times> string) list \<Rightarrow> (string \<times> string) list
     \<Rightarrow> (error + request) \<times> proc" where
  "createRequest w s url formFields formFiles =
     (case addFields w (mapRange (fieldsOrder w) formFields) [] of
        Inl err \<Rightarrow> (Inl err, s)
      | Inr ps \<Rightarrow>
          (case addFiles w s (mapRange (filesOrder w) formFiles) ps of
             (Inl err, s1) \<Rightarrow> (Inl err, s1)
           | (Inr body, s1) \<Rightarrow>
               (case newRequest w ''POST'' url of
                  Some err \<Rightarrow> (Inl err, s1)
                | None \<Rightarrow>
                    (Inr \<lparr>reqMethod = ''POST'', reqURL = url,
                          reqHeader = [(''Content-Type'', formDataContentType w)],
                          reqBody = body\<rparr>, s1))))"

section \<open>Decoding the response body\<close>

text \<open>\<open>json.Unmarshal\<close> into a \<open>ResponseModel\<close>. The struct tags name the three keys. The
  decoder takes a key that equals a field's name, or else one that equals it up to
  letter case; the three names hold no \<open>k\<close> and no \<open>s\<close>, the only ASCII letters with a
  case variant outside ASCII, so folding ASCII letters is all of it.\<close>

definition asciiLower :: "char \<Rightarrow> char" where
  "asciiLower c =
     (if 65 \<le> (of_char c :: nat) \<and> (of_char c :: nat) \<le> 90
      then char_of ((of_char c :: nat) + 32) else c)"

definition equalFold :: "string \<Rightarrow> string \<Rightarrow> bool" where
  "equalFold a b = (map asciiLower a = map asciiLower b)"


text \<open>A member of the object: a key that matches no field is skipped; for one that does,
  a JSON string is stored as it is, \<open>null\<close> leaves the field alone, anything else is a
  type error (the first one is recorded; decoding goes on).\<close>

definition setField ::
  "world \<Rightarrow> string \<Rightarrow> json \<Rightarrow> ResponseModel \<times> error option
     \<Rightarrow> ResponseModel \<times> error option" where
  "setField w key v acc =
     (let m = fst acc; saved = snd acc;
          store = (\<lambda>upd. case v of
                     JString str \<Rightarrow> (upd str, saved)
                   | JNull \<Rightarrow> (m, saved)
                   | _ \<Rightarrow> (m, (case saved of None \<Rightarrow> Some (unmarshalTypeError w v)
                                  | Some e \<Rightarrow> Some e)))
      in if key = ''config_url'' then store (\<lambda>str. m\<lparr>ConfigURL := str\<rparr>)
         else if key = ''public_url'' then store (\<lambda>str. m\<lparr>PublicURL := str\<rparr>)
         else if key = ''build_url'' then store (\<lambda>str. m\<lparr>BuildURL := str\<rparr>)
         else if equalFold ''config_url'' key then store (\<lambda>str. m\<lparr>ConfigURL := str\<rparr>)
         else if equalFold ''public_url'' key then store (\<lambda>str. m\<lparr>PublicURL := str\<rparr>)
         else if equalFold ''build_url'' key then store (\<lambda>str. m\<lparr>BuildURL := str\<rparr>)
         else acc)"

fun decodeObject ::
  "world \<Rightarrow> (string \<times> json) list \<Rightarrow> ResponseModel \<times> error option
     \<Rightarrow> ResponseModel \<times> error option" where
  "decodeObject w [] acc = acc"
| "decodeObject w ((key, v) # rest) acc = decodeObject w rest (setField w key v acc)"

text \<open>The top level: an object fills the struct, \<open>null\<close> leaves it at its zero value, any
  other value is a type error. The first recorded error is what \<open>Unmarshal\<close> returns.\<close>

definition unmarshalValue :: "world \<Rightarrow> json \<Rightarrow> error + ResponseModel" where
  "unmarshalValue w v =
     (case v of
        JObject kvs \<Rightarrow>
          (case decodeObject w kvs (zeroResponseModel, None) of
             (m, None) \<Rightarrow> Inr m
           | (m, Some err) \<Rightarrow> Inl err)
      | JNull \<Rightarrow> Inr zeroResponseModel
      | _ \<Rightarrow> Inl (unmarshalTypeError w v))"

definition jsonUnmarshal :: "world \<Rightarrow> string \<Rightarrow> error + ResponseModel" where
  "jsonUnmarshal w contents =
     (case jsonSyntax w contents of
        Inl err \<Rightarrow> Inl err
      | Inr v \<Rightarrow> unmarshalValue w v)"

section \<open>Main (lines 146-313)\<close>

text \<open>The normalised \<open>mandatory\<close> flag (lines 162-168).\<close>

definition mandatoryOf :: "world \<Rightarrow> string" where
  "mandatoryOf w =
     (if getenv w ''mandatory'' = ''1'' \<or> getenv w ''mandatory'' = ''true'' then ''1'' else ''0'')"

text \<open>The upload address (lines 210-213).\<close>

definition requestURLOf :: "string \<Rightarrow> string" where
  "requestURLOf appID =
     (if appID \<noteq> [] then ''https://rink.hockeyapp.net/api/2/apps/'' @ appID @ ''/app_versions/upload''
      else ''https://rink.hockeyapp.net/api/2/apps/upload'')"

text \<open>The two maps handed to \<open>createRequest\<close> (lines 215-232).\<close>

definition fieldsOf :: "world \<Rightarrow> (string \<times> string) list" where
  "fieldsOf w =
     [(''notes'', getenv w ''notes''),
      (''notes_type'', getenv w ''notes_type''),
      (''notify'', getenv w ''notify''),
      (''status'', getenv w ''status''),
      (''mandatory'', mandatoryOf w),
      (''tags'', getenv w ''tags''),
      (''commit_sha'', getenv w ''commit_sha''),
      (''build_server_url'', getenv w ''build_server_url''),
      (''repository_url'', getenv w ''repository_url'')]"

definition filesOf :: "world \<Rightarrow> (string \<times> string) list" where
  "filesOf w =
     (if getenv w ''mapping_path'' \<noteq> [] then
        [(''ipa'', getenv w ''apk_path''), (''dsym'', getenv w ''mapping_path'')]
      else [(''ipa'', getenv w ''apk_path'')])"

text \<open>The configuration dump (lines 170-183).\<close>

definition logConfigs :: "world \<Rightarrow> event list" where
  "logConfigs w =
     logInfo ''Configs:''
     @ logDetails (''apk_path: '' @ getenv w ''apk_path'')
     @ logDetails (''mapping_path: '' @ getenv w ''mapping_path'')
     @ logDetails ''api_token: ***''
     @ logDetails (''app_id: '' @ getenv w ''app_id'')
     @ logDetails (''notes: '' @ getenv w ''notes'')
     @ logDetails (''notes_type: '' @ getenv w ''notes_type'')
     @ logDetails (''notify: '' @ getenv w ''notify'')
     @ logDetails (''status: '' @ getenv w ''status'')
     @ logDetails (''mandatory: '' @ mandatoryOf w)
     @ logDetails (''tags: '' @ getenv w ''tags'')
     @ logDetails (''commit_sha: '' @ getenv w ''commit_sha'')
     @ logDetails (''build_server_url: '' @ getenv w ''build_server_url'')
     @ logDetails (''repository_url: '' @ getenv w ''repository_url'')"

text \<open>The response block printed on both failure branches (lines 251-257, 262-268).\<close>

definition logResponse :: "response \<Rightarrow> event list" where
  "logResponse r =
     (case bodyReadErr r of
        Some readErr \<Rightarrow>
          logWarn (''Failed to read response body, error: '' @ errorGoSyntax readErr)
      | None \<Rightarrow>
          logInfo ''Response:''
          @ logDetails (''status code: '' @ fmtInt (StatusCode r))
          @ logDetails (''body: '' @ bodyContents r))"

text \<open>Lines 288-313: print the addresses that are not empty, then the four exports,
  each of them fatal when it fails.\<close>

definition mainExport :: "world \<Rightarrow> proc \<Rightarrow> ResponseModel \<Rightarrow> proc \<times> exit" where
  "mainExport w s m =
     (let s0 = emit s
            ([Print nl]
             @ (if PublicURL m \<noteq> [] then logDone (''Public URL: '' @ PublicURL m) else [])
             @ (if BuildURL m \<noteq> [] then logDone (''Build (direct download) URL: '' @ BuildURL m)
                else [])
             @ (if ConfigURL m \<noteq> [] then logDone (''Config URL: '' @ ConfigURL m) else []))
      in case exportEnvironmentWithEnvman w s0 hockeyAppDeployStatusKey
                hockeyAppDeployStatusSuccess of
           (Some err, s1) \<Rightarrow>
             logFail w s1 (''Failed to export '' @ hockeyAppDeployStatusKey @ '', error: ''
                           @ errorGoSyntax err)
         | (None, s1) \<Rightarrow>
        (case exportEnvironmentWithEnvman w s1 hockeyAppDeployPublicURLKey (PublicURL m) of
           (Some err, s2) \<Rightarrow>
             logFail w s2 (''Failed to export '' @ hockeyAppDeployPublicURLKey @ '', error: ''
                           @ errorGoSyntax err)
         | (None, s2) \<Rightarrow>
        (case exportEnvironmentWithEnvman w s2 hockeyAppDeployBuildURLKey (BuildURL m) of
           (Some err, s3) \<Rightarrow>
             logFail w s3 (''Failed to export '' @ hockeyAppDeployBuildURLKey @ '', error: ''
                           @ errorGoSyntax err)
         | (None, s3) \<Rightarrow>
        (case exportEnvironmentWithEnvman w s3 hockeyAppDeployConfigURLKey (ConfigURL m) of
           (Some err, s4) \<Rightarrow>
             logFail w s4 (''Failed to export '' @ hockeyAppDeployConfigURLKey @ '', error: ''
                           @ errorGoSyntax err)
         | (None, s4) \<Rightarrow> (s4, Exited 0)))))"

text \<open>Lines 243-286. \<open>defer response.Body.Close()\<close> reads \<open>response.Body\<close> when the
  statement runs: with no response (a nil pointer) that is a run-time panic, before any
  of the error handling below it. The status test is the source's:
  \<open>StatusCode < 200 || StatusCode > 300\<close>.\<close>

definition mainResponse ::
  "world \<Rightarrow> proc \<Rightarrow> response option \<Rightarrow> error option \<Rightarrow> proc \<times> exit" where
  "mainResponse w s response requestErr =
     (case response of
        None \<Rightarrow> (s, Panicked)
      | Some r \<Rightarrow>
          (case requestErr of
             Some err \<Rightarrow>
               logFail w (emit s (logResponse r))
                 (''Performing request failed, error: '' @ errorGoSyntax err)
           | None \<Rightarrow>
               if StatusCode r < 200 \<or> StatusCode r > 300 then
                 logFail w (emit s (logResponse r))
                   (''Performing request failed, status code: '' @ fmtInt (StatusCode r))
               else
                 (let s1 = emit s (logDone ''Request succed''
                                   @ logInfo ''Response:''
                                   @ logDetails (''status code: '' @ fmtInt (StatusCode r))
                                   @ logDetails (''body: '' @ bodyContents r))
                  in case bodyReadErr r of
                       Some readErr \<Rightarrow>
                         logFail w s1 (''Failed to read response body, error: ''
                                       @ errorGoSyntax readErr)
                     | None \<Rightarrow>
                         (case jsonUnmarshal w (bodyContents r) of
                            Inl err \<Rightarrow>
                              logFail w (emit s1 [JSONUnmarshal (bodyContents r) (Inl err)])
                                (''Failed to parse response body, error: '' @ errorGoSyntax err)
                          | Inr m \<Rightarrow>
                              mainExport w (emit s1 [JSONUnmarshal (bodyContents r) (Inr m)]) m))))"

text \<open>Line 238: \<open>request.Header.Add("X-HockeyAppToken", apiToken)\<close>.\<close>

definition addTokenHeader :: "world \<Rightarrow> request \<Rightarrow> request" where
  "addTokenHeader w req =
     req\<lparr>reqHeader := reqHeader req @ [(''X-HockeyAppToken'', getenv w ''api_token'')]\<rparr>"

text \<open>Lines 206-241: build the request, add the token header, send it.\<close>

definition announce :: "world \<Rightarrow> event list" where
  "announce w =
     logInfo ''Performing request''
     @ [CreateRequest (requestURLOf (getenv w ''app_id'')) (fieldsOf w) (filesOf w)]"

definition mainRequest :: "world \<Rightarrow> proc \<Rightarrow> proc \<times> exit" where
  "mainRequest w s =
     (case createRequest w (emit s (announce w)) (requestURLOf (getenv w ''app_id''))
             (fieldsOf w) (filesOf w) of
        (Inl err, s2) \<Rightarrow>
          logFail w s2 (''Failed to create request, error: '' @ errorGoSyntax err)
      | (Inr req, s2) \<Rightarrow>
          mainResponse w
            (emit s2 [HTTPDo (addTokenHeader w req) (fst (httpDo w (addTokenHeader w req)))
                        (snd (httpDo w (addTokenHeader w req)))])
            (fst (httpDo w (addTokenHeader w req))) (snd (httpDo w (addTokenHeader w req))))"

text \<open>Lines 185-204: the checks on the two paths and the token.\<close>

definition mainToken :: "world \<Rightarrow> proc \<Rightarrow> proc \<times> exit" where
  "mainToken w s =
     (if getenv w ''api_token'' = [] then
        logFail w s ''No App api_token provided as environment variable. Terminating...''
      else mainRequest w s)"

definition mainMapping :: "world \<Rightarrow> proc \<Rightarrow> proc \<times> exit" where
  "mainMapping w s =
     (if getenv w ''mapping_path'' \<noteq> [] then
        (case IsPathExists w (getenv w ''mapping_path'') of
           (_, Some err) \<Rightarrow>
             logFail w s (''Failed to check if mapping ('' @ getenv w ''mapping_path''
                           @ '') exist, error: '' @ errorGoSyntax err)
         | (False, None) \<Rightarrow>
             logFail w s (''No mapping found to deploy. Specified path was: ''
                           @ getenv w ''mapping_path'')
         | (True, None) \<Rightarrow> mainToken w s)
      else mainToken w s)"

definition main :: "world \<Rightarrow> proc \<times> exit" where
  "main w =
     (let s = emit \<lparr>events = [], openFiles = []\<rparr> (logConfigs w)
      in if getenv w ''apk_path'' = [] then logFail w s ''Missing required input: apk_path''
         else case IsPathExists w (getenv w ''apk_path'') of
                (_, Some err) \<Rightarrow>
                  logFail w s (''Failed to check if apk ('' @ getenv w ''apk_path''
                                @ '') exist, error: '' @ errorGoSyntax err)
              | (False, None) \<Rightarrow>
                  logFail w s (''No apk found to deploy. Specified path was: ''
                                @ getenv w ''apk_path'')
              | (True, None) \<Rightarrow> mainMapping w s)"

section \<open>Observations on a run\<close>

fun isHTTPDo :: "event \<Rightarrow> bool" where
  "isHTTPDo (HTTPDo _ _ _) = True"
| "isHTTPDo _ = False"

fun isCreateRequest :: "event \<Rightarrow> bool" where
  "isCreateRequest (CreateRequest _ _ _) = True"
| "isCreateRequest _ = False"

fun isJSONUnmarshal :: "event \<Rightarrow> bool" where
  "isJSONUnmarshal (JSONUnmarshal _ _) = True"
| "isJSONUnmarshal _ = False"

fun isFilePart :: "part \<Rightarrow> bool" where
  "isFilePart (FilePart _ _ _) = True"
| "isFilePart _ = False"

fun isPrint :: "event \<Rightarrow> bool" where
  "isPrint (Print _) = True"
| "isPrint _ = False"

definition nonPrints :: "event list \<Rightarrow> event list" where
  "nonPrints es = filter (\<lambda>e. \<not> isPrint e) es"

text \<open>The events that can follow the HTTP call: output, runs of \<open>envman\<close>, the decoding
  of the body.\<close>

fun afterSend :: "event \<Rightarrow> bool" where
  "afterSend (HTTPDo _ _ _) = False"
| "afterSend (CreateRequest _ _ _) = False"
| "afterSend _ = True"

text \<open>The runs of \<open>envman\<close>, in order: key, value, and whether it failed.\<close>

fun envmanRun :: "event \<Rightarrow> (string \<times> string \<times> error option) list" where
  "envmanRun (EnvmanAdd k v r) = [(k, v, r)]"
| "envmanRun _ = []"

definition envmanRuns :: "event list \<Rightarrow> (string \<times> string \<times> error option) list" where
  "envmanRuns es = concat (map envmanRun es)"

fun printOf :: "event \<Rightarrow> string list" where
  "printOf (Print str) = [str]"
| "printOf _ = []"

text \<open>What has been written to standard output when the HTTP call starts (all of the
  output, for a run that never makes the call).\<close>

definition logBeforeNetwork :: "event list \<Rightarrow> string list" where
  "logBeforeNetwork es = concat (map printOf (takeWhile (\<lambda>e. \<not> isHTTPDo e) es))"

text \<open>The events that a call of \<open>logFail\<close> adds.\<close>

definition failEvents :: "world \<Rightarrow> string \<Rightarrow> event list" where
  "failEvents w msg =
     EnvmanAdd hockeyAppDeployStatusKey hockeyAppDeployStatusFailed
       (envman w hockeyAppDeployStatusKey hockeyAppDeployStatusFailed)
     # (case envman w hockeyAppDeployStatusKey hockeyAppDeployStatusFailed of
          Some err \<Rightarrow> logWarn (''Failed to export '' @ hockeyAppDeployStatusKey @ '', error: ''
                                @ errorText err)
        | None \<Rightarrow> [])
     @ [Print (esc @ ''[31;1m'' @ msg @ esc @ ''[0m'' @ nl)]"






text \<open>The inputs that pass the checks of lines 185-204.\<close>

definition validInputs :: "world \<Rightarrow> bool" where
  "validInputs w =
     (getenv w ''apk_path'' \<noteq> []
      \<and> IsPathExists w (getenv w ''apk_path'') = (True, None)
      \<and> (getenv w ''mapping_path'' = []
           \<or> IsPathExists w (getenv w ''mapping_path'') = (True, None))
      \<and> getenv w ''api_token'' \<noteq> [])"

definition start :: "world \<Rightarrow> proc" where
  "start w = emit \<lparr>events = [], openFiles = []\<rparr> (logConfigs w)"

section \<open>Sample inputs\<close>

text \<open>A run in which everything outside the process works: the \<open>.apk\<close> exists and opens,
  \<open>envman\<close> succeeds, and the service answers with the given status code and a JSON
  object that holds a public address only.\<close>

definition sampleBody :: string where
  "sampleBody = ''{'' @ dq @ ''public_url'' @ dq @ '':'' @ dq @ ''https://a'' @ dq @ ''}''"

definition sampleResponse :: "int \<Rightarrow> response" where
  "sampleResponse code = \<lparr>StatusCode = code, bodyContents = sampleBody, bodyReadErr = None\<rparr>"

definition sampleWorld :: "int \<Rightarrow> world" where
  "sampleWorld code =
     \<lparr>getenv = (\<lambda>name. if name = ''apk_path'' then ''app.apk''
                       else if name = ''api_token'' then ''secret'' else []),
      stat = (\<lambda>pth. if pth = ''app.apk'' \<or> pth = ''mapping.txt'' then StatOk else StatNotExist),
      osOpen = (\<lambda>pth. None),
      ioCopy = (\<lambda>pth. Inr ''PK''),
      writeField = (\<lambda>key val. None),
      createFormFile = (\<lambda>key file. None),
      newRequest = (\<lambda>meth url. None),
      formDataContentType = ''multipart/form-data; boundary=b'',
      fieldsOrder = [],
      filesOrder = [],
      httpDo = (\<lambda>req. (Some (sampleResponse code), None)),
      jsonSyntax = (\<lambda>str. Inr (JObject [(''public_url'', JString ''https://a'')])),
      unmarshalTypeError = (\<lambda>v. GoError ''json: cannot unmarshal'' ''&json.UnmarshalTypeError{}''),
      envman = (\<lambda>key val. None)\<rparr>"

text \<open>The request that such a run sends, for a given address and \<open>mandatory\<close> field.\<close>

definition sampleRequest :: "string \<Rightarrow> string \<Rightarrow> request" where
  "sampleRequest url mandatory =
     \<lparr>reqMethod = ''POST'', reqURL = url,
      reqHeader = [(''Content-Type'', ''multipart/form-data; boundary=b''),
                   (''X-HockeyAppToken'', ''secret'')],
      reqBody = [FieldPart ''notes'' [], FieldPart ''notes_type'' [], FieldPart ''notify'' [],
                 FieldPart ''status'' [], FieldPart ''mandatory'' mandatory, FieldPart ''tags'' [],
                 FieldPart ''commit_sha'' [], FieldPart ''build_server_url'' [],
                 FieldPart ''repository_url'' [], FilePart ''ipa'' ''app.apk'' ''PK'']\<rparr>"

definition withEnv :: "world \<Rightarrow> string \<Rightarrow> string \<Rightarrow> world" where
  "withEnv w name val = w\<lparr>getenv := (getenv w)(name := val)\<rparr>"

text \<open>The same run, but reading the opened file fails while it is copied into the body.\<close>

definition copyFailureWorld :: world where
  "copyFailureWorld =
     (sampleWorld 200)\<lparr>ioCopy := (\<lambda>pth. Inl (GoError ''read app.apk: input/output error''
                                                 ''&fs.PathError{Op:read}''))\<rparr>"

text \<open>The same run, but the HTTP call fails on the transport: an error and no response.\<close>

definition transportFailureWorld :: world where
  "transportFailureWorld =
     (sampleWorld 200)\<lparr>httpDo := (\<lambda>req. (None, Some (GoError ''dial tcp: i/o timeout''
                                                   ''&url.Error{Op:Post}'')))\<rparr>"

section \<open>Basic facts about the model\<close>

lemma events_emit: "events (emit s es) = events s @ es"
  by (simp add: emit_def)

lemma openFiles_emit: "openFiles (emit s es) = openFiles s"
  by (simp add: emit_def)

lemma emit_emit: "emit (emit s es) fs = emit s (es @ fs)"
  by (simp add: emit_def)

lemma logFail_eq: "logFail w s msg = (emit s (failEvents w msg), Exited 1)"
  by (simp add: logFail_def exportEnvironmentWithEnvman_def failEvents_def emit_def
      split: option.split)

lemma nonPrints_Nil: "nonPrints [] = []"
  by (simp add: nonPrints_def)

lemma nonPrints_Cons: "nonPrints (e # es) = (if isPrint e then nonPrints es else e # nonPrints es)"
  by (simp add: nonPrints_def)

lemma nonPrints_append: "nonPrints (es @ fs) = nonPrints es @ nonPrints fs"
  by (simp add: nonPrints_def)

lemma nonPrints_logs:
  "nonPrints (logWarn msg) = []" "nonPrints (logInfo msg) = []"
  "nonPrints (logDetails msg) = []" "nonPrints (logDone msg) = []"
  by (simp_all add: nonPrints_def logWarn_def logInfo_def logDetails_def logDone_def)

lemma nonPrints_logConfigs: "nonPrints (logConfigs w) = []"
  by (simp add: logConfigs_def nonPrints_append nonPrints_logs)

lemma nonPrints_logResponse: "nonPrints (logResponse r) = []"
  by (simp add: logResponse_def nonPrints_append nonPrints_logs split: option.split)

lemma nonPrints_failEvents:
  "nonPrints (failEvents w msg) =
     [EnvmanAdd hockeyAppDeployStatusKey hockeyAppDeployStatusFailed
        (envman w hockeyAppDeployStatusKey hockeyAppDeployStatusFailed)]"
  by (simp add: failEvents_def nonPrints_def logWarn_def split: option.split)

lemma main_invalid:
  assumes "\<not> validInputs w"
  shows "\<exists>msg. main w = logFail w (start w) msg"
  using assms
  by (auto simp: main_def mainMapping_def mainToken_def validInputs_def start_def Let_def
      split: prod.splits option.splits bool.splits)

lemma main_valid:
  assumes "validInputs w"
  shows "main w = mainRequest w (start w)"
  using assms
  by (auto simp: main_def mainMapping_def mainToken_def validInputs_def start_def Let_def
      split: prod.splits option.splits bool.splits)

lemma set_mapRange: "set (mapRange ns xs) = set xs"
proof (induction ns arbitrary: xs)
  case Nil
  show ?case by simp
next
  case (Cons n ns)
  show ?case
  proof (cases "xs = []")
    case True
    then show ?thesis by simp
  next
    case False
    let ?i = "n mod length xs"
    from False have lt: "?i < length xs" by simp
    have "set xs = set (take ?i xs @ xs ! ?i # drop (Suc ?i) xs)"
      using id_take_nth_drop [OF lt] by simp
    with False Cons.IH [of "take ?i xs @ drop (Suc ?i) xs"] show ?thesis
      by auto
  qed
qed

lemma addFields_parts:
  "addFields w xs ps = Inr body \<Longrightarrow> body = ps @ map (\<lambda>kv. FieldPart (fst kv) (snd kv)) xs"
proof (induction xs arbitrary: ps)
  case Nil
  then show ?case by simp
next
  case (Cons x xs)
  obtain key val where x: "x = (key, val)" by (cases x)
  from Cons.prems x have "addFields w xs (ps @ [FieldPart key val]) = Inr body"
    by (simp split: option.splits)
  from Cons.IH [OF this] x show ?case by simp
qed

lemma addFiles_parts:
  "addFiles w s xs ps = (Inr body, s') \<Longrightarrow> \<exists>fps. body = ps @ fps \<and> list_all isFilePart fps"
proof (induction xs arbitrary: ps s)
  case Nil
  then show ?case by simp
next
  case (Cons x xs)
  obtain key pth where x: "x = (key, pth)" by (cases x)
  from Cons.prems x obtain content where
    rec: "addFiles w (s\<lparr>openFiles := openFiles s @ [pth]\<rparr>) xs (ps @ [FilePart key pth content])
            = (Inr body, s')"
    by (auto split: option.splits sum.splits)
  from Cons.IH [OF rec] obtain fps where
    "body = (ps @ [FilePart key pth content]) @ fps" "list_all isFilePart fps" by blast
  then have "body = ps @ (FilePart key pth content # fps)
             \<and> list_all isFilePart (FilePart key pth content # fps)" by simp
  then show ?case by blast
qed

lemma addFiles_events: "addFiles w s xs ps = (r, s') \<Longrightarrow> events s' = events s"
  by (induction xs arbitrary: ps s) (auto split: option.splits sum.splits)

lemma createRequest_events:
  "createRequest w s url fs fl = (r, s') \<Longrightarrow> events s' = events s"
  by (auto simp: createRequest_def split: sum.splits option.splits prod.splits
      dest: addFiles_events)

lemma createRequest_request:
  assumes "createRequest w s url fs fl = (Inr req, s')"
  shows "reqMethod req = ''POST'' \<and> reqURL req = url
         \<and> reqHeader req = [(''Content-Type'', formDataContentType w)]
         \<and> (\<forall>k v. FieldPart k v \<in> set (reqBody req) \<longleftrightarrow> (k, v) \<in> set fs)"
proof -
  from assms obtain ps body where
    f: "addFields w (mapRange (fieldsOrder w) fs) [] = Inr ps" and
    g: "addFiles w s (mapRange (filesOrder w) fl) ps = (Inr body, s')" and
    r: "req = \<lparr>reqMethod = ''POST'', reqURL = url,
                reqHeader = [(''Content-Type'', formDataContentType w)], reqBody = body\<rparr>"
    by (auto simp: createRequest_def split: sum.splits option.splits prod.splits)
  from addFields_parts [OF f]
  have ps: "ps = map (\<lambda>kv. FieldPart (fst kv) (snd kv)) (mapRange (fieldsOrder w) fs)" by simp
  from addFiles_parts [OF g] obtain fps where
    body: "body = ps @ fps" and fps: "list_all isFilePart fps" by blast
  have "FieldPart k v \<in> set body \<longleftrightarrow> (k, v) \<in> set fs" for k v
  proof -
    from fps have "FieldPart k v \<notin> set fps" by (auto simp: list_all_iff)
    then have "FieldPart k v \<in> set body \<longleftrightarrow> FieldPart k v \<in> set ps" using body by simp
    also have "\<dots> \<longleftrightarrow> (k, v) \<in> set (mapRange (fieldsOrder w) fs)"
      unfolding ps by force
    finally show ?thesis by (simp add: set_mapRange)
  qed
  with r show ?thesis by simp
qed

lemma in_nonPrints: "\<not> isPrint e \<Longrightarrow> e \<in> set (nonPrints es) \<longleftrightarrow> e \<in> set es"
  by (simp add: nonPrints_def)

lemma nonPrints_announce:
  "nonPrints (announce w)
     = [CreateRequest (requestURLOf (getenv w ''app_id'')) (fieldsOf w) (filesOf w)]"
  by (simp add: announce_def nonPrints_def logInfo_def)

lemma nonPrints_start: "nonPrints (events (start w)) = []"
  by (simp add: start_def events_emit nonPrints_logConfigs)

lemma afterSend_logs:
  "list_all afterSend (logWarn msg)" "list_all afterSend (logInfo msg)"
  "list_all afterSend (logDetails msg)" "list_all afterSend (logDone msg)"
  by (simp_all add: logWarn_def logInfo_def logDetails_def logDone_def)

lemma afterSend_logResponse: "list_all afterSend (logResponse r)"
  by (simp add: logResponse_def afterSend_logs split: option.split)

lemma afterSend_failEvents: "list_all afterSend (failEvents w msg)"
  by (simp add: failEvents_def afterSend_logs split: option.split)

lemma mainExport_tail:
  "\<exists>es. events (fst (mainExport w s m)) = events s @ es \<and> list_all afterSend es"
  by (simp add: mainExport_def exportEnvironmentWithEnvman_def logFail_eq events_emit
      afterSend_logs afterSend_failEvents Let_def split: option.split)

lemma mainResponse_tail:
  "\<exists>es. events (fst (mainResponse w s r e)) = events s @ es \<and> list_all afterSend es"
proof -
  have ex: "\<exists>es. events (fst (mainExport w (emit s fs) m)) = events s @ es \<and> list_all afterSend es"
    if "list_all afterSend fs" for fs m
  proof -
    from mainExport_tail [of w "emit s fs" m] obtain es where
      "events (fst (mainExport w (emit s fs) m)) = events (emit s fs) @ es" "list_all afterSend es"
      by blast
    with that have "events (fst (mainExport w (emit s fs) m)) = events s @ (fs @ es)
                    \<and> list_all afterSend (fs @ es)"
      by (simp add: events_emit)
    then show ?thesis by blast
  qed
  show ?thesis
    by (auto simp: mainResponse_def logFail_eq events_emit emit_emit afterSend_logs
        afterSend_logResponse afterSend_failEvents Let_def
        split: option.split sum.split intro!: ex)
qed

lemma mainRequest_cases:
  obtains (unbuilt) err s' where
      "createRequest w (emit s (announce w)) (requestURLOf (getenv w ''app_id''))
         (fieldsOf w) (filesOf w) = (Inl err, s')"
      "mainRequest w s = logFail w s' (''Failed to create request, error: '' @ errorGoSyntax err)"
  | (sent) req s' where
      "createRequest w (emit s (announce w)) (requestURLOf (getenv w ''app_id''))
         (fieldsOf w) (filesOf w) = (Inr req, s')"
      "mainRequest w s =
         mainResponse w
           (emit s' [HTTPDo (addTokenHeader w req) (fst (httpDo w (addTokenHeader w req)))
                       (snd (httpDo w (addTokenHeader w req)))])
           (fst (httpDo w (addTokenHeader w req))) (snd (httpDo w (addTokenHeader w req)))"
proof (cases "createRequest w (emit s (announce w)) (requestURLOf (getenv w ''app_id''))
         (fieldsOf w) (filesOf w)")
  case (Pair r s')
  show ?thesis
  proof (cases r)
    case (Inl err)
    with Pair show ?thesis by (intro unbuilt [of err s']) (simp_all add: mainRequest_def)
  next
    case (Inr req)
    with Pair show ?thesis by (intro sent [of req s']) (simp_all add: mainRequest_def)
  qed
qed

lemma envmanRuns_nonPrints: "envmanRuns (nonPrints es) = envmanRuns es"
proof (induction es)
  case Nil
  show ?case by (simp add: nonPrints_def)
next
  case (Cons e es)
  then show ?case by (cases e) (simp_all add: nonPrints_def envmanRuns_def)
qed

lemma list_ex_nonPrints:
  "list_ex isHTTPDo (nonPrints es) = list_ex isHTTPDo es"
  "list_ex isCreateRequest (nonPrints es) = list_ex isCreateRequest es"
  "list_ex isJSONUnmarshal (nonPrints es) = list_ex isJSONUnmarshal es"
  by (induction es; simp add: nonPrints_def; (case_tac a; simp))+

lemma main_invalid_trace:
  assumes "\<not> validInputs w"
  shows "snd (main w) = Exited 1
         \<and> nonPrints (events (fst (main w)))
             = [EnvmanAdd hockeyAppDeployStatusKey hockeyAppDeployStatusFailed
                  (envman w hockeyAppDeployStatusKey hockeyAppDeployStatusFailed)]"
proof -
  from main_invalid [OF assms] obtain msg where "main w = logFail w (start w) msg" ..
  then show ?thesis
    by (simp add: logFail_eq events_emit nonPrints_append nonPrints_start nonPrints_failEvents)
qed

lemma main_sent:
  assumes "HTTPDo req r e \<in> set (events (fst (main w)))"
  obtains req0 s' where
    "validInputs w"
    "createRequest w (emit (start w) (announce w)) (requestURLOf (getenv w ''app_id''))
       (fieldsOf w) (filesOf w) = (Inr req0, s')"
    "req = addTokenHeader w req0" "r = fst (httpDo w req)" "e = snd (httpDo w req)"
    "main w = mainResponse w (emit s' [HTTPDo req r e]) r e"
proof -
  from assms have mem: "HTTPDo req r e \<in> set (nonPrints (events (fst (main w))))"
    by (simp add: in_nonPrints)
  have valid: "validInputs w"
  proof (rule ccontr)
    assume "\<not> validInputs w"
    from main_invalid_trace [OF this] mem show False by simp
  qed
  then have m: "main w = mainRequest w (start w)" by (rule main_valid)
  show ?thesis
  proof (cases rule: mainRequest_cases [of w "start w"])
    case (unbuilt err s')
    from createRequest_events [OF unbuilt(1)]
    have "nonPrints (events (fst (main w)))
            = [CreateRequest (requestURLOf (getenv w ''app_id'')) (fieldsOf w) (filesOf w),
               EnvmanAdd hockeyAppDeployStatusKey hockeyAppDeployStatusFailed
                 (envman w hockeyAppDeployStatusKey hockeyAppDeployStatusFailed)]"
      by (simp add: m unbuilt(2) logFail_eq events_emit nonPrints_append nonPrints_start
          nonPrints_announce nonPrints_failEvents)
    with mem show ?thesis by simp
  next
    case (sent req0 s')
    let ?q = "addTokenHeader w req0"
    let ?ev = "HTTPDo ?q (fst (httpDo w ?q)) (snd (httpDo w ?q))"
    from mainResponse_tail [of w "emit s' [?ev]" "fst (httpDo w ?q)" "snd (httpDo w ?q)"]
    obtain es where
      es: "events (fst (main w)) = events s' @ [?ev] @ es" and late: "list_all afterSend es"
      by (auto simp: m sent(2) events_emit)
    from late have "HTTPDo req r e \<notin> set es" by (auto simp: list_all_iff)
    moreover from createRequest_events [OF sent(1)]
    have "nonPrints (events s')
            = [CreateRequest (requestURLOf (getenv w ''app_id'')) (fieldsOf w) (filesOf w)]"
      by (simp add: events_emit nonPrints_append nonPrints_start nonPrints_announce)
    then have "HTTPDo req r e \<notin> set (events s')"
      using in_nonPrints [of "HTTPDo req r e" "events s'"] by simp
    ultimately have "HTTPDo req r e = ?ev" using assms es by auto
    then have "req = ?q" "r = fst (httpDo w req)" "e = snd (httpDo w req)" by simp_all
    moreover from this have "main w = mainResponse w (emit s' [HTTPDo req r e]) r e"
      using m sent(2) by simp
    ultimately show ?thesis using valid sent(1) that by blast
  qed
qed

section \<open>Validation\<close>

text \<open>Claim C4. Whenever the path of the binary (\<open>apk_path\<close>) or the API token (\<open>api_token\<close>)
  is missing or empty, the process ends with exit status 1 and its run holds no HTTP call.\<close>

theorem missing_required_input_exits_before_network:
  assumes "getenv w ''apk_path'' = [] \<or> getenv w ''api_token'' = []"
  shows "exitCode (snd (main w)) = 1 \<and> \<not> list_ex isHTTPDo (events (fst (main w)))"
proof -
  from assms have "\<not> validInputs w" by (auto simp: validInputs_def)
  from main_invalid_trace [OF this] list_ex_nonPrints(1) [of "events (fst (main w))"]
  show ?thesis by simp
qed

theorem missing_required_input_exits_before_network_witness:
  "(getenv (withEnv (sampleWorld 200) ''api_token'' []) ''apk_path'' = []
      \<or> getenv (withEnv (sampleWorld 200) ''api_token'' []) ''api_token'' = [])
   \<and> exitCode (snd (main (withEnv (sampleWorld 200) ''api_token'' []))) = 1
   \<and> \<not> list_ex isHTTPDo (events (fst (main (withEnv (sampleWorld 200) ''api_token'' []))))
   \<and> (getenv (withEnv (sampleWorld 200) ''apk_path'' []) ''apk_path'' = []
      \<or> getenv (withEnv (sampleWorld 200) ''apk_path'' []) ''api_token'' = [])
   \<and> exitCode (snd (main (withEnv (sampleWorld 200) ''apk_path'' []))) = 1
   \<and> \<not> list_ex isHTTPDo (events (fst (main (withEnv (sampleWorld 200) ''apk_path'' []))))"
proof -
  have a: "getenv (withEnv (sampleWorld 200) ''api_token'' []) ''api_token'' = []"
    by (simp add: withEnv_def)
  have b: "getenv (withEnv (sampleWorld 200) ''apk_path'' []) ''apk_path'' = []"
    by (simp add: withEnv_def)
  show ?thesis
    using missing_required_input_exits_before_network
            [of "withEnv (sampleWorld 200) ''api_token'' []"]
          missing_required_input_exits_before_network
            [of "withEnv (sampleWorld 200) ''apk_path'' []"] a b
    by simp
qed

text \<open>Claim C5. Whenever \<open>os.Stat\<close> does not find the binary, or does not find a non-empty
  mapping path (the entry does not exist, or the check itself fails), the process ends with
  exit status 1 before \<open>createRequest\<close> is called, and so before any HTTP call.\<close>

theorem missing_file_exits_before_request:
  assumes "stat w (getenv w ''apk_path'') \<noteq> StatOk
           \<or> (getenv w ''mapping_path'' \<noteq> [] \<and> stat w (getenv w ''mapping_path'') \<noteq> StatOk)"
  shows "exitCode (snd (main w)) = 1
         \<and> \<not> list_ex isCreateRequest (events (fst (main w)))
         \<and> \<not> list_ex isHTTPDo (events (fst (main w)))"
proof -
  from assms have "\<not> validInputs w"
    by (auto simp: validInputs_def IsPathExists_def genericIsPathExists_def
        split: if_splits stat_result.splits)
  from main_invalid_trace [OF this] list_ex_nonPrints(1,2) [of "events (fst (main w))"]
  show ?thesis by simp
qed

theorem missing_file_exits_before_request_witness:
  "(stat (withEnv (sampleWorld 200) ''apk_path'' ''missing.apk'')
       (getenv (withEnv (sampleWorld 200) ''apk_path'' ''missing.apk'') ''apk_path'') \<noteq> StatOk)
   \<and> exitCode (snd (main (withEnv (sampleWorld 200) ''apk_path'' ''missing.apk''))) = 1
   \<and> \<not> list_ex isCreateRequest
         (events (fst (main (withEnv (sampleWorld 200) ''apk_path'' ''missing.apk''))))
   \<and> (getenv (withEnv (sampleWorld 200) ''mapping_path'' ''missing.txt'') ''mapping_path'' \<noteq> []
      \<and> stat (withEnv (sampleWorld 200) ''mapping_path'' ''missing.txt'')
           (getenv (withEnv (sampleWorld 200) ''mapping_path'' ''missing.txt'') ''mapping_path'')
          \<noteq> StatOk)
   \<and> exitCode (snd (main (withEnv (sampleWorld 200) ''mapping_path'' ''missing.txt''))) = 1
   \<and> \<not> list_ex isCreateRequest
         (events (fst (main (withEnv (sampleWorld 200) ''mapping_path'' ''missing.txt''))))"
proof -
  have a: "stat (withEnv (sampleWorld 200) ''apk_path'' ''missing.apk'')
             (getenv (withEnv (sampleWorld 200) ''apk_path'' ''missing.apk'') ''apk_path'') \<noteq> StatOk"
    by (simp add: withEnv_def sampleWorld_def)
  have b: "getenv (withEnv (sampleWorld 200) ''mapping_path'' ''missing.txt'') ''mapping_path'' \<noteq> []
           \<and> stat (withEnv (sampleWorld 200) ''mapping_path'' ''missing.txt'')
                (getenv (withEnv (sampleWorld 200) ''mapping_path'' ''missing.txt'') ''mapping_path'')
               \<noteq> StatOk"
    by (simp add: withEnv_def sampleWorld_def)
  show ?thesis
    using missing_file_exits_before_request
            [of "withEnv (sampleWorld 200) ''apk_path'' ''missing.apk''"]
          missing_file_exits_before_request
            [of "withEnv (sampleWorld 200) ''mapping_path'' ''missing.txt''"] a b
    by simp
qed

lemma mainResponse_failed_status:
  assumes "StatusCode r < 200 \<or> StatusCode r > 300"
  shows "\<exists>msg. mainResponse w s (Some r) e = logFail w (emit s (logResponse r)) msg"
  using assms by (cases e) (auto simp: mainResponse_def)

section \<open>Failure responses\<close>

text \<open>Claim C6. Whenever the HTTP call returns a response with status code 404, whatever
  its body, the process ends with exit status 1, \<open>json.Unmarshal\<close> is never called, and
  \<open>envman\<close> is run exactly once, for the deploy-status key with the value \<open>failed\<close>.\<close>

theorem status_404_fails_without_parsing:
  assumes "HTTPDo req (Some r) e \<in> set (events (fst (main w)))" and "StatusCode r = 404"
  shows "exitCode (snd (main w)) = 1
         \<and> \<not> list_ex isJSONUnmarshal (events (fst (main w)))
         \<and> envmanRuns (events (fst (main w)))
             = [(hockeyAppDeployStatusKey, hockeyAppDeployStatusFailed,
                 envman w hockeyAppDeployStatusKey hockeyAppDeployStatusFailed)]"
proof -
  from assms(1) obtain req0 s' where
    built: "createRequest w (emit (start w) (announce w)) (requestURLOf (getenv w ''app_id''))
              (fieldsOf w) (filesOf w) = (Inr req0, s')" and
    m: "main w = mainResponse w (emit s' [HTTPDo req (Some r) e]) (Some r) e"
    by (rule main_sent)
  from assms(2) have "StatusCode r < 200 \<or> StatusCode r > 300" by simp
  from mainResponse_failed_status [OF this] m obtain msg where
    f: "main w = logFail w (emit (emit s' [HTTPDo req (Some r) e]) (logResponse r)) msg"
    by metis
  from createRequest_events [OF built]
  have np: "nonPrints (events (fst (main w)))
          = [CreateRequest (requestURLOf (getenv w ''app_id'')) (fieldsOf w) (filesOf w),
             HTTPDo req (Some r) e,
             EnvmanAdd hockeyAppDeployStatusKey hockeyAppDeployStatusFailed
               (envman w hockeyAppDeployStatusKey hockeyAppDeployStatusFailed)]"
    by (simp add: f logFail_eq events_emit nonPrints_append nonPrints_start nonPrints_announce
        nonPrints_failEvents nonPrints_logResponse nonPrints_Cons nonPrints_Nil)
  have "snd (main w) = Exited 1" by (simp add: f logFail_eq)
  moreover have "\<not> list_ex isJSONUnmarshal (events (fst (main w)))"
    using list_ex_nonPrints(3) [of "events (fst (main w))"] np by simp
  moreover have "envmanRuns (events (fst (main w)))
             = [(hockeyAppDeployStatusKey, hockeyAppDeployStatusFailed,
                 envman w hockeyAppDeployStatusKey hockeyAppDeployStatusFailed)]"
    using envmanRuns_nonPrints [of "events (fst (main w))"] np by (simp add: envmanRuns_def)
  ultimately show ?thesis by simp
qed

lemma mainResponse_keeps:
  "x \<in> set (events s) \<Longrightarrow> x \<in> set (events (fst (mainResponse w s r e)))"
  using mainResponse_tail [of w s r e] by auto

lemma sample_run_sends:
  "HTTPDo (sampleRequest ''https://rink.hockeyapp.net/api/2/apps/upload'' ''0'')
      (Some (sampleResponse code)) None \<in> set (events (fst (main (sampleWorld code))))"
  by (simp add: main_def sampleWorld_def mainMapping_def mainToken_def mainRequest_def
      IsPathExists_def genericIsPathExists_def createRequest_def fieldsOf_def filesOf_def
      mandatoryOf_def requestURLOf_def addTokenHeader_def sampleRequest_def events_emit
      Let_def mainResponse_keeps)

theorem status_404_fails_without_parsing_witness:
  "HTTPDo (sampleRequest ''https://rink.hockeyapp.net/api/2/apps/upload'' ''0'')
      (Some (sampleResponse 404)) None \<in> set (events (fst (main (sampleWorld 404))))
   \<and> StatusCode (sampleResponse 404) = 404
   \<and> exitCode (snd (main (sampleWorld 404))) = 1
   \<and> \<not> list_ex isJSONUnmarshal (events (fst (main (sampleWorld 404))))
   \<and> envmanRuns (events (fst (main (sampleWorld 404))))
       = [(''HOCKEYAPP_DEPLOY_STATUS'', ''failed'', None)]"
proof -
  have code: "StatusCode (sampleResponse 404) = 404" by (simp add: sampleResponse_def)
  show ?thesis
    using status_404_fails_without_parsing [OF sample_run_sends [of 404] code] code
      sample_run_sends [of 404]
    by (simp add: hockeyAppDeployStatusKey_def hockeyAppDeployStatusFailed_def sampleWorld_def)
qed

section \<open>The request\<close>




text \<open>Claim C8. The \<open>mandatory\<close> field of the request that is sent is \<open>1\<close> exactly when the
  input \<open>mandatory\<close> is \<open>1\<close> or \<open>true\<close>, and \<open>0\<close> for every other input; the body holds no
  other value under that name.\<close>

theorem mandatory_field_normalised:
  assumes "HTTPDo req r e \<in> set (events (fst (main w)))"
  shows "FieldPart ''mandatory'' v \<in> set (reqBody req) \<longleftrightarrow>
           v = (if getenv w ''mandatory'' = ''1'' \<or> getenv w ''mandatory'' = ''true''
                then ''1'' else ''0'')"
proof -
  from assms obtain req0 s' where
    built: "createRequest w (emit (start w) (announce w)) (requestURLOf (getenv w ''app_id''))
              (fieldsOf w) (filesOf w) = (Inr req0, s')" and
    req: "req = addTokenHeader w req0"
    by (rule main_sent)
  from createRequest_request [OF built] req
  have "FieldPart ''mandatory'' v \<in> set (reqBody req) \<longleftrightarrow> (''mandatory'', v) \<in> set (fieldsOf w)"
    by (simp add: addTokenHeader_def)
  also have "\<dots> \<longleftrightarrow> v = mandatoryOf w" by (auto simp: fieldsOf_def)
  finally show ?thesis by (simp add: mandatoryOf_def)
qed

lemma sample_run_sends_mandatory:
  "HTTPDo (sampleRequest ''https://rink.hockeyapp.net/api/2/apps/upload''
             (if val = ''1'' \<or> val = ''true'' then ''1'' else ''0''))
      (Some (sampleResponse 200)) None
     \<in> set (events (fst (main (withEnv (sampleWorld 200) ''mandatory'' val))))"
  by (simp add: main_def sampleWorld_def withEnv_def mainMapping_def mainToken_def mainRequest_def
      IsPathExists_def genericIsPathExists_def createRequest_def fieldsOf_def filesOf_def
      mandatoryOf_def requestURLOf_def addTokenHeader_def sampleRequest_def events_emit
      Let_def mainResponse_keeps)

theorem mandatory_field_normalised_witness:
  "HTTPDo (sampleRequest ''https://rink.hockeyapp.net/api/2/apps/upload'' ''1'')
      (Some (sampleResponse 200)) None
     \<in> set (events (fst (main (withEnv (sampleWorld 200) ''mandatory'' ''true''))))
   \<and> FieldPart ''mandatory'' ''1''
       \<in> set (reqBody (sampleRequest ''https://rink.hockeyapp.net/api/2/apps/upload'' ''1''))
   \<and> HTTPDo (sampleRequest ''https://rink.hockeyapp.net/api/2/apps/upload'' ''0'')
      (Some (sampleResponse 200)) None
     \<in> set (events (fst (main (withEnv (sampleWorld 200) ''mandatory'' ''TRUE''))))
   \<and> FieldPart ''mandatory'' ''0''
       \<in> set (reqBody (sampleRequest ''https://rink.hockeyapp.net/api/2/apps/upload'' ''0''))
   \<and> HTTPDo (sampleRequest ''https://rink.hockeyapp.net/api/2/apps/upload'' ''0'')
      (Some (sampleResponse 200)) None
     \<in> set (events (fst (main (withEnv (sampleWorld 200) ''mandatory'' ''yes''))))
   \<and> HTTPDo (sampleRequest ''https://rink.hockeyapp.net/api/2/apps/upload'' ''0'')
      (Some (sampleResponse 200)) None
     \<in> set (events (fst (main (withEnv (sampleWorld 200) ''mandatory'' []))))"
proof -
  have t: "HTTPDo (sampleRequest ''https://rink.hockeyapp.net/api/2/apps/upload'' ''1'')
      (Some (sampleResponse 200)) None
     \<in> set (events (fst (main (withEnv (sampleWorld 200) ''mandatory'' ''true''))))"
    using sample_run_sends_mandatory [of "''true''"] by simp
  have u: "HTTPDo (sampleRequest ''https://rink.hockeyapp.net/api/2/apps/upload'' ''0'')
      (Some (sampleResponse 200)) None
     \<in> set (events (fst (main (withEnv (sampleWorld 200) ''mandatory'' ''TRUE''))))"
    using sample_run_sends_mandatory [of "''TRUE''"] by simp
  have y: "HTTPDo (sampleRequest ''https://rink.hockeyapp.net/api/2/apps/upload'' ''0'')
      (Some (sampleResponse 200)) None
     \<in> set (events (fst (main (withEnv (sampleWorld 200) ''mandatory'' ''yes''))))"
    using sample_run_sends_mandatory [of "''yes''"] by simp
  have n: "HTTPDo (sampleRequest ''https://rink.hockeyapp.net/api/2/apps/upload'' ''0'')
      (Some (sampleResponse 200)) None
     \<in> set (events (fst (main (withEnv (sampleWorld 200) ''mandatory'' []))))"
    using sample_run_sends_mandatory [of "[]"] by simp
  have gt: "getenv (withEnv (sampleWorld 200) ''mandatory'' ''true'') ''mandatory'' = ''true''"
    by (simp add: withEnv_def)
  have gu: "getenv (withEnv (sampleWorld 200) ''mandatory'' ''TRUE'') ''mandatory'' = ''TRUE''"
    by (simp add: withEnv_def)
  show ?thesis
    using mandatory_field_normalised [OF t, of "''1''"] mandatory_field_normalised [OF u, of "''0''"]
      t u y n gt gu
    by simp
qed

section \<open>Decoding the body\<close>












section \<open>The success path\<close>








section \<open>The token and the log\<close>

lemma addFields_getenv: "addFields (w\<lparr>getenv := g\<rparr>) xs ps = addFields w xs ps"
  by (induction xs arbitrary: ps) (auto split: option.splits)

lemma addFiles_getenv: "addFiles (w\<lparr>getenv := g\<rparr>) s xs ps = addFiles w s xs ps"
  by (induction xs arbitrary: ps s) (auto split: option.splits sum.splits)

lemma createRequest_getenv:
  "createRequest (w\<lparr>getenv := g\<rparr>) s url fs fl = createRequest w s url fs fl"
  by (simp add: createRequest_def addFields_getenv addFiles_getenv
      split: sum.splits prod.splits option.splits)

lemma logFail_getenv: "logFail (w\<lparr>getenv := g\<rparr>) s msg = logFail w s msg"
  by (simp add: logFail_def exportEnvironmentWithEnvman_def)

lemma token_irrelevant:
  "mandatoryOf (withEnv w ''api_token'' t) = mandatoryOf w"
  "fieldsOf (withEnv w ''api_token'' t) = fieldsOf w"
  "filesOf (withEnv w ''api_token'' t) = filesOf w"
  "logConfigs (withEnv w ''api_token'' t) = logConfigs w"
  "getenv (withEnv w ''api_token'' t) ''app_id'' = getenv w ''app_id''"
  "IsPathExists (withEnv w ''api_token'' t) pth = IsPathExists w pth"
  by (simp_all add: withEnv_def mandatoryOf_def fieldsOf_def filesOf_def logConfigs_def
      IsPathExists_def genericIsPathExists_def)

lemma token_irrelevant_start:
  "start (withEnv w ''api_token'' t) = start w" "announce (withEnv w ''api_token'' t) = announce w"
  by (simp_all add: start_def announce_def token_irrelevant)

lemma validInputs_token:
  assumes "getenv w ''api_token'' \<noteq> []" and "t \<noteq> []"
  shows "validInputs (withEnv w ''api_token'' t) = validInputs w"
  using assms by (simp add: validInputs_def token_irrelevant) (simp add: withEnv_def)

lemma main_invalid_token:
  assumes "\<not> validInputs w" and "getenv w ''api_token'' \<noteq> []" and "t \<noteq> []"
  shows "main (withEnv w ''api_token'' t) = main w"
proof -
  have g: "getenv (withEnv w ''api_token'' t) ''apk_path'' = getenv w ''apk_path''"
    "getenv (withEnv w ''api_token'' t) ''mapping_path'' = getenv w ''mapping_path''"
    "getenv (withEnv w ''api_token'' t) ''api_token'' = t"
    by (simp_all add: withEnv_def)
  have lf: "logFail (withEnv w ''api_token'' t) s msg = logFail w s msg" for s msg
    by (simp add: withEnv_def logFail_getenv)
  from assms show ?thesis
    by (auto simp: main_def mainMapping_def mainToken_def validInputs_def Let_def g lf
        token_irrelevant split: prod.splits option.splits bool.splits)
qed

lemma takeWhile_quiet:
  assumes "\<not> list_ex isHTTPDo es"
  shows "takeWhile (\<lambda>e. \<not> isHTTPDo e) (es @ fs) = es @ takeWhile (\<lambda>e. \<not> isHTTPDo e) fs"
  using assms by (intro takeWhile_append2) (simp add: list_ex_iff)

lemma logBeforeNetwork_sent:
  assumes "\<not> list_ex isHTTPDo (events s)"
  shows "logBeforeNetwork (events (fst (mainResponse w (emit s [HTTPDo q r e]) r' e')))
           = concat (map printOf (events s))"
proof -
  from mainResponse_tail [of w "emit s [HTTPDo q r e]" r' e'] obtain es where
    "events (fst (mainResponse w (emit s [HTTPDo q r e]) r' e')) = events s @ HTTPDo q r e # es"
    by (auto simp: events_emit)
  with takeWhile_quiet [OF assms, of "HTTPDo q r e # es"] show ?thesis
    by (simp add: logBeforeNetwork_def)
qed

lemma logBeforeNetwork_quiet:
  assumes "\<not> list_ex isHTTPDo es"
  shows "logBeforeNetwork es = concat (map printOf es)"
proof -
  from assms have "takeWhile (\<lambda>e. \<not> isHTTPDo e) es = es"
    by (simp add: takeWhile_eq_all_conv list_ex_iff)
  then show ?thesis unfolding logBeforeNetwork_def
    by (rule arg_cong [where f = "\<lambda>xs. concat (map printOf xs)"])
qed

lemma quiet_start: "\<not> list_ex isHTTPDo (events (start w) @ announce w)"
  using list_ex_nonPrints(1) [of "events (start w) @ announce w"]
  by (simp add: nonPrints_append nonPrints_start nonPrints_announce)

lemma afterSend_quiet: "afterSend x \<Longrightarrow> \<not> isHTTPDo x"
  by (cases x) simp_all

lemma quiet_failEvents: "\<not> list_ex isHTTPDo es \<Longrightarrow> \<not> list_ex isHTTPDo (es @ failEvents w msg)"
  using afterSend_failEvents [of w msg]
  by (auto simp: list_ex_iff list_all_iff dest: afterSend_quiet)

text \<open>Claim C10. Two runs whose inputs differ only in a non-empty \<open>api_token\<close> write the
  same output up to the HTTP call; the configuration dump does not depend on the token and
  holds the line \<open>api_token: ***\<close> in its place.\<close>

theorem token_never_logged:
  assumes "getenv w ''api_token'' \<noteq> []" and "t \<noteq> []"
  shows "logBeforeNetwork (events (fst (main (withEnv w ''api_token'' t))))
           = logBeforeNetwork (events (fst (main w)))
         \<and> ''  api_token: ***'' @ nl \<in> set (logBeforeNetwork (events (fst (main w))))
         \<and> logConfigs (withEnv w ''api_token'' t) = logConfigs w"
proof (intro conjI)
  let ?w = "withEnv w ''api_token'' t"
  show "logBeforeNetwork (events (fst (main ?w))) = logBeforeNetwork (events (fst (main w)))"
  proof (cases "validInputs w")
    case False
    from main_invalid_token [OF False assms] show ?thesis by simp
  next
    case True
    with validInputs_token [OF assms] have "validInputs ?w" by simp
    then have mw': "main ?w = mainRequest ?w (start w)"
      using main_valid [of ?w] by (simp add: token_irrelevant_start)
    from True have mw: "main w = mainRequest w (start w)" by (rule main_valid)
    have cr: "createRequest ?w s url fs fl = createRequest w s url fs fl" for s url fs fl
      by (simp add: withEnv_def createRequest_getenv)
    show ?thesis
    proof (cases rule: mainRequest_cases [of w "start w"])
      case (unbuilt err s')
      then have "mainRequest ?w (start w) = mainRequest w (start w)"
        by (simp add: mainRequest_def token_irrelevant token_irrelevant_start cr)
          (simp add: withEnv_def logFail_getenv)
      with mw mw' show ?thesis by simp
    next
      case (sent req0 s')
      from createRequest_events [OF sent(1)] quiet_start [of w]
      have quiet: "\<not> list_ex isHTTPDo (events s')" by (simp add: events_emit)
      let ?q = "addTokenHeader ?w req0"
      have "mainRequest ?w (start w) =
              mainResponse ?w (emit s' [HTTPDo ?q (fst (httpDo ?w ?q)) (snd (httpDo ?w ?q))])
                (fst (httpDo ?w ?q)) (snd (httpDo ?w ?q))"
        using sent(1) by (simp add: mainRequest_def token_irrelevant token_irrelevant_start cr)
      with mw' have "logBeforeNetwork (events (fst (main ?w))) = concat (map printOf (events s'))"
        by (simp add: logBeforeNetwork_sent [OF quiet])
      moreover from mw sent(2)
      have "logBeforeNetwork (events (fst (main w))) = concat (map printOf (events s'))"
        by (simp add: logBeforeNetwork_sent [OF quiet])
      ultimately show ?thesis by simp
    qed
  qed
next
  have line: "''  api_token: ***'' @ nl \<in> set (concat (map printOf (logConfigs w)))"
    by (simp add: logConfigs_def logInfo_def logDetails_def)
  have pre: "\<exists>rest. logBeforeNetwork (events (fst (main w)))
               = concat (map printOf (logConfigs w)) @ rest"
  proof (cases "validInputs w")
    case False
    from main_invalid [OF False] obtain msg where "main w = logFail w (start w) msg" ..
    then have ev: "events (fst (main w)) = logConfigs w @ failEvents w msg"
      by (simp add: logFail_eq events_emit start_def)
    have "\<not> list_ex isHTTPDo (logConfigs w)"
      using list_ex_nonPrints(1) [of "logConfigs w"] by (simp add: nonPrints_logConfigs nonPrints_Nil)
    then have "\<not> list_ex isHTTPDo (logConfigs w @ failEvents w msg)"
      by (rule quiet_failEvents)
    from logBeforeNetwork_quiet [OF this] ev show ?thesis by simp
  next
    case True
    then have mw: "main w = mainRequest w (start w)" by (rule main_valid)
    show ?thesis
    proof (cases rule: mainRequest_cases [of w "start w"])
      case (unbuilt err s')
      from createRequest_events [OF unbuilt(1)]
      have ev: "events (fst (main w)) = (events (start w) @ announce w)
                  @ failEvents w (''Failed to create request, error: '' @ errorGoSyntax err)"
        by (simp add: mw unbuilt(2) logFail_eq events_emit)
      from quiet_start [of w]
      have "\<not> list_ex isHTTPDo ((events (start w) @ announce w)
                  @ failEvents w (''Failed to create request, error: '' @ errorGoSyntax err))"
        by (rule quiet_failEvents)
      from logBeforeNetwork_quiet [OF this] ev show ?thesis
        by (simp add: start_def events_emit)
    next
      case (sent req0 s')
      from createRequest_events [OF sent(1)] quiet_start [of w]
      have quiet: "\<not> list_ex isHTTPDo (events s')" and
        ev: "events s' = logConfigs w @ announce w" by (simp_all add: events_emit start_def)
      from mw sent(2)
      have "logBeforeNetwork (events (fst (main w))) = concat (map printOf (events s'))"
        by (simp add: logBeforeNetwork_sent [OF quiet])
      with ev show ?thesis by simp
    qed
  qed
  with line show "''  api_token: ***'' @ nl \<in> set (logBeforeNetwork (events (fst (main w))))"
    by auto
next
  show "logConfigs (withEnv w ''api_token'' t) = logConfigs w"
    by (simp add: token_irrelevant)
qed

theorem token_never_logged_witness:
  "getenv (sampleWorld 200) ''api_token'' \<noteq> [] \<and> ''other-secret'' \<noteq> []
   \<and> getenv (withEnv (sampleWorld 200) ''api_token'' ''other-secret'') ''api_token''
       \<noteq> getenv (sampleWorld 200) ''api_token''
   \<and> logBeforeNetwork (events (fst (main (withEnv (sampleWorld 200) ''api_token'' ''other-secret''))))
       = logBeforeNetwork (events (fst (main (sampleWorld 200))))
   \<and> ''  api_token: ***'' @ nl \<in> set (logBeforeNetwork (events (fst (main (sampleWorld 200)))))"
proof -
  have a: "getenv (sampleWorld 200) ''api_token'' \<noteq> []" by (simp add: sampleWorld_def)
  have b: "''other-secret'' \<noteq> []" by simp
  have c: "getenv (withEnv (sampleWorld 200) ''api_token'' ''other-secret'') ''api_token''
             \<noteq> getenv (sampleWorld 200) ''api_token''"
    by (simp add: withEnv_def sampleWorld_def)
  from token_never_logged [OF a b] a b c show ?thesis by simp
qed

section \<open>Runs that depart from the specification\<close>

text \<open>Any run that receives status code 300, without a transport error and with a body
  that could be read, goes on to decode the body.\<close>

lemma status_300_is_decoded:
  assumes "HTTPDo req (Some r) None \<in> set (events (fst (main w)))"
    and "StatusCode r = 300" and "bodyReadErr r = None"
  shows "JSONUnmarshal (bodyContents r) (jsonUnmarshal w (bodyContents r))
           \<in> set (events (fst (main w)))"
proof -
  from assms(1) obtain s' where
    m: "main w = mainResponse w (emit s' [HTTPDo req (Some r) None]) (Some r) None"
    by (rule main_sent)
  let ?s1 = "emit (emit s' [HTTPDo req (Some r) None])
               (logDone ''Request succed'' @ logInfo ''Response:''
                @ logDetails (''status code: '' @ fmtInt (StatusCode r))
                @ logDetails (''body: '' @ bodyContents r))"
  let ?ev = "JSONUnmarshal (bodyContents r) (jsonUnmarshal w (bodyContents r))"
  show ?thesis
  proof (cases "jsonUnmarshal w (bodyContents r)")
    case (Inl err)
    with assms(2,3) m show ?thesis
      by (simp add: mainResponse_def Let_def logFail_eq events_emit)
  next
    case (Inr model)
    with assms(2,3) m have eq: "main w = mainExport w (emit ?s1 [?ev]) model"
      by (simp add: mainResponse_def Let_def)
    from mainExport_tail [of w "emit ?s1 [?ev]" model] show ?thesis
      by (auto simp: eq events_emit)
  qed
qed

text \<open>Claim C1. The claim asks that a response with status code 300 be a failure. The
  test of line 261 is \<open>StatusCode > 300\<close>, so the run that receives status 300 takes the
  success path: the body is decoded, the success status and the addresses are exported,
  and the process ends with exit status 0.\<close>

theorem status_300_taken_as_success:
  "snd (main (sampleWorld 300)) = Exited 0
   \<and> filter isJSONUnmarshal (events (fst (main (sampleWorld 300))))
       = [JSONUnmarshal sampleBody
            (Inr \<lparr>ConfigURL = [], PublicURL = ''https://a'', BuildURL = []\<rparr>)]
   \<and> envmanRuns (events (fst (main (sampleWorld 300))))
       = [(''HOCKEYAPP_DEPLOY_STATUS'', ''success'', None),
          (''HOCKEYAPP_DEPLOY_PUBLIC_URL'', ''https://a'', None),
          (''HOCKEYAPP_DEPLOY_BUILD_URL'', [], None),
          (''HOCKEYAPP_DEPLOY_CONFIG_URL'', [], None)]"
  by (simp add: main_def sampleWorld_def sampleResponse_def mainMapping_def mainToken_def
      mainRequest_def IsPathExists_def genericIsPathExists_def Let_def createRequest_def
      mainResponse_def mainExport_def exportEnvironmentWithEnvman_def jsonUnmarshal_def
      unmarshalValue_def setField_def fieldsOf_def filesOf_def zeroResponseModel_def
      emit_def announce_def logConfigs_def logInfo_def logDetails_def logDone_def
      envmanRuns_def hockeyAppDeployStatusKey_def hockeyAppDeployStatusSuccess_def
      hockeyAppDeployPublicURLKey_def hockeyAppDeployBuildURLKey_def
      hockeyAppDeployConfigURLKey_def)

text \<open>Any run in which the HTTP call gives no response ends in a panic, and \<open>envman\<close> is
  never run.\<close>

lemma no_response_panics:
  assumes "HTTPDo req None e \<in> set (events (fst (main w)))"
  shows "snd (main w) = Panicked \<and> envmanRuns (events (fst (main w))) = []"
proof -
  from assms obtain req0 s' where
    built: "createRequest w (emit (start w) (announce w)) (requestURLOf (getenv w ''app_id''))
              (fieldsOf w) (filesOf w) = (Inr req0, s')" and
    m: "main w = mainResponse w (emit s' [HTTPDo req None e]) None e"
    by (rule main_sent)
  from m have eq: "main w = (emit s' [HTTPDo req None e], Panicked)"
    by (simp add: mainResponse_def)
  from createRequest_events [OF built]
  have "nonPrints (events (fst (main w)))
          = [CreateRequest (requestURLOf (getenv w ''app_id'')) (fieldsOf w) (filesOf w),
             HTTPDo req None e]"
    by (simp add: eq events_emit nonPrints_append nonPrints_start nonPrints_announce
        nonPrints_Cons nonPrints_Nil)
  with envmanRuns_nonPrints [of "events (fst (main w))"] eq show ?thesis
    by (simp add: envmanRuns_def)
qed

text \<open>Claim C2. The claim asks that a transport failure (an error and no response) be
  logged, export the failed status and end with exit status 1. Line 243 reads
  \<open>response.Body\<close> before the error is looked at: the run ends in a run-time panic (exit
  status 2) right after the HTTP call, with no run of \<open>envman\<close> and no further output.\<close>

theorem transport_failure_panics:
  "snd (main transportFailureWorld) = Panicked
   \<and> exitCode (snd (main transportFailureWorld)) = 2
   \<and> envmanRuns (events (fst (main transportFailureWorld))) = []
   \<and> nonPrints (events (fst (main transportFailureWorld)))
       = [CreateRequest ''https://rink.hockeyapp.net/api/2/apps/upload''
            (fieldsOf transportFailureWorld) [(''ipa'', ''app.apk'')],
          HTTPDo (sampleRequest ''https://rink.hockeyapp.net/api/2/apps/upload'' ''0'') None
            (Some (GoError ''dial tcp: i/o timeout'' ''&url.Error{Op:Post}''))]
   \<and> last (events (fst (main transportFailureWorld)))
       = HTTPDo (sampleRequest ''https://rink.hockeyapp.net/api/2/apps/upload'' ''0'') None
           (Some (GoError ''dial tcp: i/o timeout'' ''&url.Error{Op:Post}''))"
  by (simp add: main_def transportFailureWorld_def sampleWorld_def mainMapping_def mainToken_def
      mainRequest_def IsPathExists_def genericIsPathExists_def Let_def createRequest_def
      mainResponse_def fieldsOf_def filesOf_def mandatoryOf_def requestURLOf_def
      addTokenHeader_def sampleRequest_def
      emit_def announce_def logConfigs_def logInfo_def logDetails_def
      envmanRuns_def nonPrints_def)

text \<open>\<open>createRequest\<close> only ever adds to the open files; when it succeeds, every file it
  was given is open on return.\<close>

lemma addFiles_openFiles:
  assumes "addFiles w s xs ps = (r, s')"
  shows "\<exists>opened. openFiles s' = openFiles s @ opened \<and> set opened \<subseteq> snd ` set xs
           \<and> (\<forall>body. r = Inr body \<longrightarrow> opened = map snd xs)"
  using assms
proof (induction xs arbitrary: ps s)
  case Nil
  then show ?case by simp
next
  case (Cons x xs)
  obtain key pth where x: "x = (key, pth)" by (cases x)
  show ?case
  proof (cases "osOpen w pth")
    case (Some err)
    with Cons.prems x show ?thesis by auto
  next
    case None
    let ?s = "s\<lparr>openFiles := openFiles s @ [pth]\<rparr>"
    consider (stop) err where "r = Inl err" "s' = ?s"
      | (go) content where "addFiles w ?s xs (ps @ [FilePart key pth content]) = (r, s')"
      using Cons.prems x None by (auto split: option.splits sum.splits)
    then show ?thesis
    proof cases
      case stop
      with x have "openFiles s' = openFiles s @ [pth] \<and> set [pth] \<subseteq> snd ` set (x # xs)
                   \<and> (\<forall>body. r = Inr body \<longrightarrow> [pth] = map snd (x # xs))" by simp
      then show ?thesis by blast
    next
      case go
      from Cons.IH [OF go] obtain opened where
        o: "openFiles s' = openFiles ?s @ opened" "set opened \<subseteq> snd ` set xs"
           "\<forall>body. r = Inr body \<longrightarrow> opened = map snd xs" by blast
      with x have "openFiles s' = openFiles s @ (pth # opened)
                   \<and> set (pth # opened) \<subseteq> snd ` set (x # xs)
                   \<and> (\<forall>body. r = Inr body \<longrightarrow> pth # opened = map snd (x # xs))" by auto
      then show ?thesis by blast
    qed
  qed
qed

lemma createRequest_never_closes:
  assumes "createRequest w s url fs fl = (r, s')"
  shows "\<exists>opened. openFiles s' = openFiles s @ opened
           \<and> (\<forall>req. r = Inr req \<longrightarrow> set opened = snd ` set fl)"
proof (cases "addFields w (mapRange (fieldsOrder w) fs) []")
  case (Inl err)
  with assms show ?thesis by (auto simp: createRequest_def)
next
  case (Inr ps)
  obtain r1 s1 where a: "addFiles w s (mapRange (filesOrder w) fl) ps = (r1, s1)"
    by (cases "addFiles w s (mapRange (filesOrder w) fl) ps")
  from addFiles_openFiles [OF a] obtain opened where
    o: "openFiles s1 = openFiles s @ opened"
       "\<forall>body. r1 = Inr body \<longrightarrow> opened = map snd (mapRange (filesOrder w) fl)" by blast
  from assms Inr a have s': "s' = s1" and r: "\<And>req. r = Inr req \<Longrightarrow> \<exists>body. r1 = Inr body"
    by (auto simp: createRequest_def split: sum.splits option.splits)
  have "\<forall>req. r = Inr req \<longrightarrow> set opened = snd ` set fl"
  proof (intro allI impI)
    fix req assume "r = Inr req"
    from r [OF this] o(2) have "opened = map snd (mapRange (filesOrder w) fl)" by blast
    then show "set opened = snd ` set fl" by (simp add: set_mapRange)
  qed
  with o(1) s' show ?thesis by blast
qed

text \<open>Claim C3. The claim asks that every file opened by \<open>createRequest\<close> be closed when it
  returns. The file stays open when \<open>createRequest\<close> succeeds, stays open when it fails
  after the file was opened, and is still open when \<open>main\<close> returns.\<close>

theorem createRequest_leaves_files_open:
  "createRequest (sampleWorld 200) \<lparr>events = [], openFiles = []\<rparr>
       ''https://rink.hockeyapp.net/api/2/apps/upload'' [(''notes'', ''hello'')]
       [(''ipa'', ''app.apk'')]
     = (Inr \<lparr>reqMethod = ''POST'', reqURL = ''https://rink.hockeyapp.net/api/2/apps/upload'',
             reqHeader = [(''Content-Type'', ''multipart/form-data; boundary=b'')],
             reqBody = [FieldPart ''notes'' ''hello'', FilePart ''ipa'' ''app.apk'' ''PK'']\<rparr>,
        \<lparr>events = [], openFiles = [''app.apk'']\<rparr>)
   \<and> createRequest copyFailureWorld \<lparr>events = [], openFiles = []\<rparr>
       ''https://rink.hockeyapp.net/api/2/apps/upload'' [(''notes'', ''hello'')]
       [(''ipa'', ''app.apk'')]
     = (Inl (GoError ''read app.apk: input/output error'' ''&fs.PathError{Op:read}''),
        \<lparr>events = [], openFiles = [''app.apk'']\<rparr>)
   \<and> openFiles (fst (main (sampleWorld 200))) = [''app.apk'']"
  by (simp add: createRequest_def copyFailureWorld_def sampleWorld_def
      main_def sampleResponse_def mainMapping_def mainToken_def
      mainRequest_def IsPathExists_def genericIsPathExists_def Let_def
      mainResponse_def mainExport_def exportEnvironmentWithEnvman_def jsonUnmarshal_def
      unmarshalValue_def setField_def fieldsOf_def filesOf_def zeroResponseModel_def
      emit_def)

end
